theory Spec2Isabelle
  imports Main "HOL-Library.List_Lexorder" "HOL-Library.Char_ord" "HOL-Library.Multiset"
begin

section \<open>Values and exceptions\<close>

text \<open>
  The payload of the APOD endpoint is whatever \<^verbatim>\<open>response.json()\<close> returns: a Python
  value built from JSON. Python's parser also accepts the literals NaN, Infinity and
  -Infinity, so a float is kept apart from an integer and may be not-a-number.
  A dict is an association list read with \<open>map_of\<close>.
\<close>

datatype pyfloat = NaN | Infinity bool | Finite int int

datatype json =
    JNull
  | JBool bool
  | JInt int
  | JFloat pyfloat
  | JStr string
  | JArr "json list"
  | JObj "(string \<times> json) list"

text \<open>The exceptions the task functions raise, each with its message.\<close>

datatype error =
    Exception string
  | ValueError string
  | AssertionError string
  | AttributeError string
  | JSONDecodeError string

text \<open>Python's truth value of an object, as \<^verbatim>\<open>if not raw_data\<close> tests it.\<close>

fun truthy :: "json \<Rightarrow> bool" where
  "truthy JNull = False"
| "truthy (JBool b) = b"
| "truthy (JInt i) = (i \<noteq> 0)"
| "truthy (JFloat NaN) = True"
| "truthy (JFloat (Infinity _)) = True"
| "truthy (JFloat (Finite m _)) = (m \<noteq> 0)"
| "truthy (JStr s) = (s \<noteq> [])"
| "truthy (JArr xs) = (xs \<noteq> [])"
| "truthy (JObj kvs) = (kvs \<noteq> [])"

text \<open>\<^verbatim>\<open>d.get(key)\<close> and \<^verbatim>\<open>d.get(key, default)\<close> on a dict.\<close>

definition get :: "(string \<times> json) list \<Rightarrow> string \<Rightarrow> json" where
  "get d k = (case map_of d k of None \<Rightarrow> JNull | Some v \<Rightarrow> v)"

definition get_default :: "(string \<times> json) list \<Rightarrow> string \<Rightarrow> json \<Rightarrow> json" where
  "get_default d k dflt = (case map_of d k of None \<Rightarrow> dflt | Some v \<Rightarrow> v)"

section \<open>The record handed from the transformer to the sinks\<close>

text \<open>
  \<^verbatim>\<open>transformed_data\<close> is a dict with eight fixed keys. The sinks only compare and
  order the \<open>date\<close> cell and copy the others, so the row type is generic in the cell
  types: the transformer fills it with JSON values, the CSV sink needs an order on the
  date cell.
\<close>

record ('d, 'v) apod =
  date :: 'd
  title :: 'v
  explanation :: 'v
  url :: 'v
  hdurl :: 'v
  media_type :: 'v
  copyright :: 'v
  extracted_at :: 'v

section \<open>transform_apod_data\<close>

text \<open>
  \<^verbatim>\<open>df[col].isna().any()\<close> on the one-row frame: pandas counts None and a float
  NaN as missing, and nothing else (an empty string is a value).
\<close>

definition isna :: "json \<Rightarrow> bool" where
  "isna v = (v = JNull \<or> v = JFloat NaN)"

text \<open>
  \<^verbatim>\<open>df['media_type'].isin(['image', 'video']).all()\<close> on the one-row frame:
  only the two strings are members. (On a list or dict value some pandas versions raise
  TypeError while hashing it instead of answering False; the task fails at this line
  either way, and the theorems below only say that it fails.)
\<close>

definition isin_image_video :: "json \<Rightarrow> bool" where
  "isin_image_video v = (v = JStr ''image'' \<or> v = JStr ''video'')"

text \<open>The three asserts of the data quality checks, in the order of the source.\<close>

definition quality_checks :: "(json, json) apod \<Rightarrow> error + unit" where
  "quality_checks t =
     (if isna (date t) then Inl (AssertionError ''Date field cannot be null'')
      else if isna (title t) then Inl (AssertionError ''Title field cannot be null'')
      else if \<not> isin_image_video (media_type t) then Inl (AssertionError ''Invalid media type'')
      else Inr ())"

text \<open>
  The dict built from the raw record. \<open>now\<close> is \<^verbatim>\<open>datetime.now().isoformat()\<close>.
\<close>

definition select_fields :: "string \<Rightarrow> (string \<times> json) list \<Rightarrow> (json, json) apod" where
  "select_fields now raw_data =
     \<lparr> date = get raw_data ''date'',
       title = get_default raw_data ''title'' (JStr ''N/A''),
       explanation = get_default raw_data ''explanation'' (JStr ''N/A''),
       url = get_default raw_data ''url'' (JStr ''N/A''),
       hdurl = get_default raw_data ''hdurl'' (JStr ''N/A''),
       media_type = get_default raw_data ''media_type'' (JStr ''image''),
       copyright = get_default raw_data ''copyright'' (JStr ''Public Domain''),
       extracted_at = JStr now \<rparr>"

text \<open>
  \<open>raw_data\<close> is the value pulled from XCom (\<open>JNull\<close> when nothing was pushed).
  A falsy value raises ValueError; a truthy value that is not a dict has no
  \<^verbatim>\<open>keys\<close> method, and the log line that lists the keys raises AttributeError.
\<close>

definition transform_apod_data :: "string \<Rightarrow> json \<Rightarrow> error + (json, json) apod" where
  "transform_apod_data now raw_data =
     (if \<not> truthy raw_data then Inl (ValueError ''No data received from extraction task'')
      else case raw_data of
        JObj d \<Rightarrow>
          (let transformed_data = select_fields now d in
           case quality_checks transformed_data of
             Inl e \<Rightarrow> Inl e
           | Inr _ \<Rightarrow> Inr transformed_data)
      | _ \<Rightarrow> Inl (AttributeError ''object has no attribute keys''))"

section \<open>extract_apod_data\<close>

text \<open>
  What the source answers to one request:
  \<^item> \<open>Request_fails\<close>: \<^verbatim>\<open>requests.get\<close> raises a RequestException (no connection, timeout);
  \<^item> \<open>Http_error\<close>: a response with an error status, on which \<^verbatim>\<open>raise_for_status\<close>
    raises HTTPError, a RequestException;
  \<^item> \<open>Body_unparsable\<close>: a success status with a body that is not JSON, on which
    \<^verbatim>\<open>response.json()\<close> raises the library's JSON decode error;
  \<^item> \<open>Body\<close>: a success status with a body that parses to the given value.
  The string is \<^verbatim>\<open>str(e)\<close> of the exception.
\<close>

datatype response =
    Request_fails string
  | Http_error string
  | Body_unparsable string
  | Body json

text \<open>What the extractor does to the outside world: a request, or a sleep of so many seconds.\<close>

datatype event = Get | Sleep nat

text \<open>\<^verbatim>\<open>str(n)\<close> of a natural number, for the messages.\<close>

fun str_nat :: "nat \<Rightarrow> string" where
  "str_nat n =
     (if n < 10 then [''0123456789'' ! n]
      else str_nat (n div 10) @ [''0123456789'' ! (n mod 10)])"

declare str_nat.simps [simp del]

text \<open>
  The body of the \<^verbatim>\<open>try\<close>: \<open>Inl cause\<close> when the \<^verbatim>\<open>except requests.RequestException\<close>
  clause catches, \<open>Inr\<close> when the function leaves the loop (with the record, or with an
  exception the clause does not catch). Whether the clause catches the JSON decode error
  depends on the installed requests library, which the repository does not pin: from
  requests 2.27 on the error is a RequestException, before it is a plain ValueError.
  \<open>json_error_caught\<close> says which. The log lines after the parse call
  \<^verbatim>\<open>data.get\<close>, which only a dict has.
\<close>

definition try_request :: "bool \<Rightarrow> response \<Rightarrow> string + (error + json)" where
  "try_request json_error_caught r =
     (case r of
        Request_fails e \<Rightarrow> Inl e
      | Http_error e \<Rightarrow> Inl e
      | Body_unparsable e \<Rightarrow>
          (if json_error_caught then Inl e else Inr (Inl (JSONDecodeError e)))
      | Body data \<Rightarrow>
          (case data of
             JObj _ \<Rightarrow> Inr (Inr data)
           | _ \<Rightarrow> Inr (Inl (AttributeError ''object has no attribute get''))))"

text \<open>
  The loop \<^verbatim>\<open>for attempt in range(max_retries)\<close>, over the attempts still to make.
  \<open>api attempt\<close> is the answer to the request of that attempt. A loop that runs out
  returns None.
\<close>

fun retry_loop ::
  "bool \<Rightarrow> nat \<Rightarrow> (nat \<Rightarrow> response) \<Rightarrow> nat list \<Rightarrow> (error + json) \<times> event list" where
  "retry_loop json_error_caught max_retries api [] = (Inr JNull, [])"
| "retry_loop json_error_caught max_retries api (attempt # rest) =
     (case try_request json_error_caught (api attempt) of
        Inr res \<Rightarrow> (res, [Get])
      | Inl e \<Rightarrow>
          if int attempt = int max_retries - 1
          then (Inl (Exception (''Failed to fetch APOD data after '' @ str_nat max_retries
                                  @ '' attempts: '' @ e)), [Get])
          else (let wait_time = 2 ^ attempt;
                    (res, evs) = retry_loop json_error_caught max_retries api rest
                in (res, Get # Sleep wait_time # evs)))"

definition max_retries :: nat where
  "max_retries = 3"

definition extract_apod_data :: "bool \<Rightarrow> (nat \<Rightarrow> response) \<Rightarrow> (error + json) \<times> event list" where
  "extract_apod_data json_error_caught api =
     retry_loop json_error_caught max_retries api [0..<max_retries]"

text \<open>
  A transport or HTTP failure with cause \<open>e\<close>: what the \<^verbatim>\<open>except\<close> clause catches
  whatever the library version.
\<close>

definition transport_failure :: "response \<Rightarrow> string \<Rightarrow> bool" where
  "transport_failure r e = (r = Request_fails e \<or> r = Http_error e)"

section \<open>load_to_postgres\<close>

text \<open>
  The statement \<^verbatim>\<open>INSERT ... ON CONFLICT (date) DO UPDATE SET ...\<close> on the table,
  as a list of rows: the first row with the new row's date has its seven other columns
  overwritten, and a table with no such row gets the new row.
\<close>

fun upsert :: "('d, 'v) apod \<Rightarrow> ('d, 'v) apod list \<Rightarrow> ('d, 'v) apod list" where
  "upsert new [] = [new]"
| "upsert new (row # rows) =
     (if date row = date new
      then row\<lparr> title := title new, explanation := explanation new, url := url new,
                hdurl := hdurl new, media_type := media_type new,
                copyright := copyright new, extracted_at := extracted_at new \<rparr> # rows
      else row # upsert new rows)"

text \<open>
  Where the database fails, if it does: on connecting, on executing the statement (the
  transaction is rolled back), or on the verifying count, which runs after the commit.
\<close>

datatype db_fault = No_fault | Connect_fails string | Execute_fails string | Verify_fails string

definition load_to_postgres ::
  "db_fault \<Rightarrow> ('d, 'v) apod \<Rightarrow> ('d, 'v) apod list \<Rightarrow> (error + unit) \<times> ('d, 'v) apod list" where
  "load_to_postgres fault data tbl =
     (case fault of
        No_fault \<Rightarrow> (Inr (), upsert data tbl)
      | Connect_fails e \<Rightarrow> (Inl (Exception (''PostgreSQL load failed: '' @ e)), tbl)
      | Execute_fails e \<Rightarrow> (Inl (Exception (''PostgreSQL load failed: '' @ e)), tbl)
      | Verify_fails e \<Rightarrow> (Inl (Exception (''PostgreSQL load failed: '' @ e)), upsert data tbl))"

section \<open>load_to_csv\<close>

text \<open>
  \<^verbatim>\<open>sort_values('date', ascending=False)\<close>: the rows in descending order of their
  date cell. Rows with equal dates keep their order here; no theorem below depends on
  the order among equal dates.
\<close>

fun insert_desc :: "('a \<Rightarrow> 'k::linorder) \<Rightarrow> 'a \<Rightarrow> 'a list \<Rightarrow> 'a list" where
  "insert_desc k x [] = [x]"
| "insert_desc k x (y # ys) = (if k y \<le> k x then x # y # ys else y # insert_desc k x ys)"

definition sort_values_desc :: "('a \<Rightarrow> 'k::linorder) \<Rightarrow> 'a list \<Rightarrow> 'a list" where
  "sort_values_desc k xs = foldr (insert_desc k) xs []"

text \<open>
  The file at \<^verbatim>\<open>csv_path\<close>: absent, a table that \<^verbatim>\<open>read_csv\<close> returns, or a file
  on which \<^verbatim>\<open>read_csv\<close> raises.
\<close>

datatype ('d, 'v) csv_file = Absent | Table "('d, 'v) apod list" | Unreadable string

text \<open>The result is the table written back to \<^verbatim>\<open>csv_path\<close>.\<close>

definition load_to_csv ::
  "('d::linorder, 'v) apod \<Rightarrow> ('d, 'v) csv_file \<Rightarrow> error + ('d, 'v) apod list" where
  "load_to_csv data file =
     (case file of
        Absent \<Rightarrow> Inr [data]
      | Table existing_df \<Rightarrow>
          Inr (sort_values_desc date (filter (\<lambda>row. date row \<noteq> date data) existing_df @ [data]))
      | Unreadable e \<Rightarrow> Inl (Exception (''CSV load failed: '' @ e)))"

text \<open>
  The CSV sink orders the date cells, which the model takes as strings: the endpoint
  sends the date as a string, and so does \<^verbatim>\<open>read_csv\<close> return the date column.
  \<open>csv_row\<close> is the transformer's record as a row of that table, its date cell being the
  string it holds; a date of another type is outside the model of the sink.
\<close>

definition csv_row :: "(json, json) apod \<Rightarrow> (string, json) apod option" where
  "csv_row r =
     (case date r of
        JStr s \<Rightarrow>
          Some \<lparr> date = s, title = title r, explanation = explanation r, url = url r,
                 hdurl = hdurl r, media_type = media_type r, copyright = copyright r,
                 extracted_at = extracted_at r \<rparr>
      | _ \<Rightarrow> None)"

section \<open>The DAG\<close>

text \<open>The six operators, under the names of the variables that hold them.\<close>

datatype task =
    extract_task | transform_task | load_postgres_task | load_csv_task | dvc_task | git_task

record args =
  owner :: string
  depends_on_past :: bool
  email_on_failure :: bool
  email_on_retry :: bool
  retries :: nat
  retry_delay_minutes :: nat
  execution_timeout_minutes :: nat

definition default_args :: args where
  "default_args =
     \<lparr> owner = ''mlops-team'', depends_on_past = False, email_on_failure = False,
       email_on_retry = False, retries = 2, retry_delay_minutes = 5,
       execution_timeout_minutes = 30 \<rparr>"

text \<open>
  The \<^verbatim>\<open>retries\<close> argument given to an operator's constructor: none of the six
  constructors of the source passes one, so each operator takes the DAG's default.
\<close>

definition operator_retries :: "task \<Rightarrow> nat option" where
  "operator_retries t = None"

definition task_retries :: "task \<Rightarrow> nat" where
  "task_retries t = (case operator_retries t of Some n \<Rightarrow> n | None \<Rightarrow> retries default_args)"

text \<open>
  The chain \<^verbatim>\<open>a >> b >> [c, d] >> e\<close>: each \<^verbatim>\<open>>>\<close> makes every task on its left an
  upstream of every task on its right, and evaluates to its right operand.
\<close>

datatype node = T task | L "task list"

fun members :: "node \<Rightarrow> task list" where
  "members (T t) = [t]"
| "members (L ts) = ts"

fun rshift_chain :: "node list \<Rightarrow> (task \<times> task) list" where
  "rshift_chain (a # b # rest) =
     List.product (members a) (members b) @ rshift_chain (b # rest)"
| "rshift_chain _ = []"

definition dependencies :: "(task \<times> task) list" where
  "dependencies =
     rshift_chain [T extract_task, T transform_task, L [load_postgres_task, load_csv_task],
                   T dvc_task, T git_task]"

definition upstream :: "task \<Rightarrow> task list" where
  "upstream t = map fst (filter (\<lambda>(u, d). d = t) dependencies)"

definition all_tasks :: "task list" where
  "all_tasks =
     [extract_task, transform_task, load_postgres_task, load_csv_task, dvc_task, git_task]"

definition leaves :: "task list" where
  "leaves = filter (\<lambda>t. t \<notin> fst ` set dependencies) all_tasks"

section \<open>Running the DAG\<close>

text \<open>
  The scheduler's treatment of one task instance. A try that raises is followed by
  another while retries are left (any exception of the task functions is retried: none
  of them is Airflow's fail-fast exception); then the instance is failed.
  \<open>ok try\<close> says whether the try of that number succeeds. The result carries the
  number of tries made.
\<close>

datatype ti_state = Success | Failed | Upstream_failed

fun run_tries :: "(nat \<Rightarrow> bool) \<Rightarrow> nat \<Rightarrow> nat \<Rightarrow> ti_state \<times> nat" where
  "run_tries ok 0 try = (if ok try then (Success, Suc try) else (Failed, Suc try))"
| "run_tries ok (Suc left) try =
     (if ok try then (Success, Suc try) else run_tries ok left (Suc try))"

definition run_task :: "(task \<Rightarrow> nat \<Rightarrow> bool) \<Rightarrow> task \<Rightarrow> ti_state \<times> nat" where
  "run_task env t = run_tries (env t) (task_retries t) 0"

text \<open>
  The default trigger rule (the source sets no other): a task runs once all its upstream
  tasks have succeeded, and is set to upstream-failed, without a try, when one of them
  has not.
\<close>

fun rank :: "task \<Rightarrow> nat" where
  "rank extract_task = 0"
| "rank transform_task = 1"
| "rank load_postgres_task = 2"
| "rank load_csv_task = 2"
| "rank dvc_task = 3"
| "rank git_task = 4"

lemma upstream_rank: "u \<in> set (upstream t) \<Longrightarrow> rank u < rank t"
  by (cases t; cases u) (auto simp: upstream_def dependencies_def)

function instance_state :: "(task \<Rightarrow> nat \<Rightarrow> bool) \<Rightarrow> task \<Rightarrow> ti_state \<times> nat" where
  "instance_state env t =
     (if \<forall>u \<in> set (upstream t). fst (instance_state env u) = Success
      then run_task env t
      else (Upstream_failed, 0))"
  by pat_completeness auto
termination
  by (relation "measure (\<lambda>(env, t). rank t)") (auto simp: upstream_rank)

declare instance_state.simps [simp del]

datatype run_state = Run_success | Run_failed

definition dag_run_state :: "(task \<Rightarrow> nat \<Rightarrow> bool) \<Rightarrow> run_state" where
  "dag_run_state env =
     (if \<forall>t \<in> set leaves. fst (instance_state env t) = Success then Run_success
      else Run_failed)"

section \<open>The bash command of git_task\<close>

text \<open>
  A bash list \<^verbatim>\<open>c0 && c1 || c2 ...\<close>: the operators have equal precedence and associate
  to the left, so each command runs or not by the exit status so far, and a command that
  is passed over leaves the status as it is.
\<close>

datatype connective = And_if | Or_if

text \<open>
  A command is its list of words. \<^verbatim>\<open>echo\<close> and \<^verbatim>\<open>true\<close> succeed and change
  nothing; every other command (\<^verbatim>\<open>cd\<close>, \<^verbatim>\<open>git\<close>) acts on the state of the machine,
  which the parameter \<open>tool\<close> gives: the exit status and the new state.
\<close>

definition exec :: "(string list \<Rightarrow> 's \<Rightarrow> nat \<times> 's) \<Rightarrow> string list \<Rightarrow> 's \<Rightarrow> nat \<times> 's" where
  "exec tool cmd s =
     (if take 1 cmd = [''echo''] \<or> cmd = [''true''] then (0, s) else tool cmd s)"

fun and_or ::
  "(string list \<Rightarrow> 's \<Rightarrow> nat \<times> 's) \<Rightarrow> nat \<times> 's \<Rightarrow> (connective \<times> string list) list \<Rightarrow> nat \<times> 's" where
  "and_or tool r [] = r"
| "and_or tool (status, s) ((And_if, cmd) # rest) =
     and_or tool (if status = 0 then exec tool cmd s else (status, s)) rest"
| "and_or tool (status, s) ((Or_if, cmd) # rest) =
     and_or tool (if status \<noteq> 0 then exec tool cmd s else (status, s)) rest"

definition bash ::
  "(string list \<Rightarrow> 's \<Rightarrow> nat \<times> 's) \<Rightarrow> string list \<times> (connective \<times> string list) list \<Rightarrow> 's \<Rightarrow> nat \<times> 's" where
  "bash tool script s = and_or tool (exec tool (fst script) s) (snd script)"

text \<open>
  The \<^verbatim>\<open>bash_command\<close> of \<^verbatim>\<open>git_task\<close>. \<open>stamp\<close> is the output of
  \<^verbatim>\<open>date +%Y-%m-%d_%H-%M-%S\<close>.
\<close>

definition git_bash_command :: "string \<Rightarrow> string list \<times> (connective \<times> string list) list" where
  "git_bash_command stamp =
     ([''cd'', ''/opt/airflow''],
      [(And_if, [''echo'', ''Configuring Git...'']),
       (And_if, [''git'', ''config'', ''--global'', ''user.name'', ''MLOps Pipeline'']),
       (And_if, [''git'', ''config'', ''--global'', ''user.email'', ''mlops@example.com'']),
       (And_if, [''git'', ''config'', ''--global'', ''--add'', ''safe.directory'', ''/opt/airflow'']),
       (And_if, [''echo'', ''Initializing Git repository if needed...'']),
       (And_if, [''git'', ''init'']),
       (Or_if, [''echo'', ''Git already initialized'']),
       (And_if, [''echo'', ''Current Git status:'']),
       (And_if, [''git'', ''status'']),
       (Or_if, [''true'']),
       (And_if, [''echo'', ''Staging DVC files...'']),
       (And_if, [''git'', ''add'', ''data/apod_data.csv.dvc'', ''data/.gitignore'',
                 ''.dvc/config'', ''.dvc/.gitignore'']),
       (Or_if, [''true'']),
       (And_if, [''echo'', ''Committing changes...'']),
       (And_if, [''git'', ''commit'', ''-m'', ''Update APOD data version - '' @ stamp]),
       (Or_if, [''echo'', ''No changes to commit'']),
       (And_if, [''echo'', ''Latest Git log:'']),
       (And_if, [''git'', ''log'', ''--oneline'', ''-3'']),
       (Or_if, [''true'']),
       (And_if, [''echo'', ''Git commit completed successfully''])])"

text \<open>A BashOperator succeeds when its command exits with status 0.\<close>

definition bash_operator ::
  "(string list \<Rightarrow> 's \<Rightarrow> nat \<times> 's) \<Rightarrow> string list \<times> (connective \<times> string list) list \<Rightarrow> 's \<Rightarrow> ti_state \<times> 's" where
  "bash_operator tool script s =
     (case bash tool script s of (status, s') \<Rightarrow> (if status = 0 then Success else Failed, s'))"

definition is_git_commit :: "string list \<Rightarrow> bool" where
  "is_git_commit cmd = (take 2 cmd = [''git'', ''commit''])"

text \<open>
  A small git, to run the command on: the tracked files may differ from the index, the
  index may differ from the last commit, and the log lists the commit messages.
  \<^verbatim>\<open>git add\<close> stages what differs; \<^verbatim>\<open>git commit\<close> with nothing staged exits with
  status 1 and writes nothing.
\<close>

record repo =
  worktree_changed :: bool
  index_changed :: bool
  commits :: "string list"

definition small_git :: "string list \<Rightarrow> repo \<Rightarrow> nat \<times> repo" where
  "small_git cmd s =
     (if take 2 cmd = [''git'', ''add'']
      then (0, s\<lparr> index_changed := index_changed s \<or> worktree_changed s,
                  worktree_changed := False \<rparr>)
      else if take 2 cmd = [''git'', ''commit'']
      then (if index_changed s
            then (0, s\<lparr> index_changed := False, commits := commits s @ [last cmd] \<rparr>)
            else (1, s))
      else (0, s))"

definition nothing_new :: "repo \<Rightarrow> bool" where
  "nothing_new s = (\<not> worktree_changed s \<and> \<not> index_changed s)"


section \<open>Helper facts: the transformer\<close>

lemma transform_on_dict:
  "d \<noteq> [] \<Longrightarrow>
   transform_apod_data now (JObj d) =
     (case quality_checks (select_fields now d) of
        Inl e \<Rightarrow> Inl e
      | Inr _ \<Rightarrow> Inr (select_fields now d))"
  by (simp add: transform_apod_data_def Let_def)

lemma transform_on_empty_dict:
  "transform_apod_data now (JObj []) = Inl (ValueError ''No data received from extraction task'')"
  by (simp add: transform_apod_data_def)

lemma quality_checks_clock:
  "quality_checks (select_fields now d) = quality_checks (select_fields now' d)"
  by (simp add: quality_checks_def select_fields_def)

lemma transform_failure_clock:
  "isl (transform_apod_data now raw) = isl (transform_apod_data now' raw)"
proof (cases raw)
  case (JObj d)
  show ?thesis
  proof (cases "d = []")
    case True
    with JObj show ?thesis by (simp add: transform_on_empty_dict)
  next
    case False
    with JObj show ?thesis
      using quality_checks_clock [of now d now']
      by (simp add: transform_on_dict split: sum.splits)
  qed
qed (simp_all add: transform_apod_data_def)

lemma quality_checks_date_null:
  "isna (date t) \<Longrightarrow> quality_checks t = Inl (AssertionError ''Date field cannot be null'')"
  by (simp add: quality_checks_def)

section \<open>Helper facts: the DAG\<close>

lemma upstream_simps:
  "upstream extract_task = []"
  "upstream transform_task = [extract_task]"
  "upstream load_postgres_task = [transform_task]"
  "upstream load_csv_task = [transform_task]"
  "upstream dvc_task = [load_postgres_task, load_csv_task]"
  "upstream git_task = [dvc_task]"
  by (simp_all add: upstream_def dependencies_def)

lemma leaves_simp: "leaves = [git_task]"
  by (simp add: leaves_def all_tasks_def dependencies_def)

lemma state_extract: "instance_state env extract_task = run_task env extract_task"
  by (subst instance_state.simps) (simp add: upstream_simps)

lemma state_transform:
  "instance_state env transform_task =
     (if fst (instance_state env extract_task) = Success then run_task env transform_task
      else (Upstream_failed, 0))"
  by (subst instance_state.simps) (simp add: upstream_simps)

lemma state_load_postgres:
  "instance_state env load_postgres_task =
     (if fst (instance_state env transform_task) = Success then run_task env load_postgres_task
      else (Upstream_failed, 0))"
  by (subst instance_state.simps) (simp add: upstream_simps)

lemma state_load_csv:
  "instance_state env load_csv_task =
     (if fst (instance_state env transform_task) = Success then run_task env load_csv_task
      else (Upstream_failed, 0))"
  by (subst instance_state.simps) (simp add: upstream_simps)

lemma state_dvc:
  "instance_state env dvc_task =
     (if fst (instance_state env load_postgres_task) = Success
         \<and> fst (instance_state env load_csv_task) = Success
      then run_task env dvc_task else (Upstream_failed, 0))"
  by (subst instance_state.simps) (simp add: upstream_simps)

lemma state_git:
  "instance_state env git_task =
     (if fst (instance_state env dvc_task) = Success then run_task env git_task
      else (Upstream_failed, 0))"
  by (subst instance_state.simps) (simp add: upstream_simps)

lemma run_tries_all_fail:
  "(\<And>i. \<not> ok i) \<Longrightarrow> run_tries ok left k = (Failed, k + left + 1)"
  by (induction left arbitrary: k) simp_all

lemma run_tries_not_upstream_failed: "fst (run_tries ok left k) \<noteq> Upstream_failed"
  by (induction left arbitrary: k) simp_all

lemma run_tries_tried: "k < snd (run_tries ok left k)"
proof (induction left arbitrary: k)
  case 0
  show ?case by simp
next
  case (Suc left)
  from Suc [of "Suc k"] show ?case by (simp add: less_imp_le Suc_lessD)
qed

lemma run_tries_failed_tries:
  "fst (run_tries ok left k) = Failed \<Longrightarrow> snd (run_tries ok left k) = k + left + 1"
  by (induction left arbitrary: k) (simp_all split: if_splits)

lemma run_tries_success_iff:
  "fst (run_tries ok left k) = Success \<longleftrightarrow> (\<exists>i \<le> left. ok (k + i))"
proof (induction left arbitrary: k)
  case 0
  show ?case by simp
next
  case (Suc left)
  show ?case
  proof (cases "ok k")
    case True
    then have "\<exists>i \<le> Suc left. ok (k + i)" by (intro exI [of _ 0]) simp
    with True show ?thesis by simp
  next
    case False
    have "(\<exists>i \<le> left. ok (Suc k + i)) \<longleftrightarrow> (\<exists>i \<le> Suc left. ok (k + i))"
    proof
      assume "\<exists>i \<le> left. ok (Suc k + i)"
      then obtain i where "i \<le> left" "ok (Suc k + i)" by blast
      then show "\<exists>i \<le> Suc left. ok (k + i)" by (intro exI [of _ "Suc i"]) simp
    next
      assume "\<exists>i \<le> Suc left. ok (k + i)"
      then obtain i where i: "i \<le> Suc left" "ok (k + i)" by blast
      with False obtain j where "i = Suc j" by (cases i) auto
      with i show "\<exists>i \<le> left. ok (Suc k + i)" by (intro exI [of _ j]) simp
    qed
    with False Suc [of "Suc k"] show ?thesis by simp
  qed
qed

lemma task_retries_simp: "task_retries t = 2"
  by (simp add: task_retries_def operator_retries_def default_args_def)

section \<open>Helper facts: tries of a task\<close>

lemma run_task_all_fail: "(\<And>k. \<not> env t k) \<Longrightarrow> run_task env t = (Failed, 3)"
  using run_tries_all_fail [of "env t" 2 0] by (simp add: run_task_def task_retries_simp)

lemma run_task_first_try: "env t 0 \<Longrightarrow> run_task env t = (Success, 1)"
  by (simp add: run_task_def task_retries_simp numeral_2_eq_2)

lemma run_task_tried: "0 < snd (run_task env t)"
  using run_tries_tried [of 0 "env t" "task_retries t"] by (simp add: run_task_def)

lemma run_task_not_upstream_failed: "fst (run_task env t) \<noteq> Upstream_failed"
  by (simp add: run_task_def run_tries_not_upstream_failed)

lemma run_task_failed_tries: "fst (run_task env t) = Failed \<Longrightarrow> snd (run_task env t) = 3"
  using run_tries_failed_tries [of "env t" "task_retries t" 0]
  by (simp add: run_task_def task_retries_simp)

lemma transform_error_clock:
  assumes "transform_apod_data now raw = Inl e"
  shows "transform_apod_data now' raw = Inl e"
proof (cases raw)
  case (JObj d)
  show ?thesis
  proof (cases "d = []")
    case True
    with JObj assms show ?thesis by (simp add: transform_on_empty_dict)
  next
    case False
    with JObj assms have "quality_checks (select_fields now d) = Inl e"
      by (simp add: transform_on_dict split: sum.splits)
    then have "quality_checks (select_fields now' d) = Inl e"
      using quality_checks_clock [of now d now'] by simp
    with JObj False show ?thesis by (simp add: transform_on_dict)
  qed
qed (use assms in \<open>simp_all add: transform_apod_data_def split: if_splits\<close>)

section \<open>Helper facts: the keyed table\<close>

lemma overwrite_is_new:
  fixes row new :: "('d, 'v) apod"
  assumes "date row = date new"
  shows "row\<lparr> title := title new, explanation := explanation new, url := url new,
              hdurl := hdurl new, media_type := media_type new,
              copyright := copyright new, extracted_at := extracted_at new \<rparr> = new"
  using assms by (cases row, cases new) simp

lemma upsert_absent:
  "date new \<notin> date ` set tbl \<Longrightarrow> upsert new tbl = tbl @ [new]"
  by (induction tbl) auto

lemma upsert_present:
  fixes new :: "('d, 'v) apod"
  assumes "date row = date new" and "date new \<notin> date ` set before"
  shows "upsert new (before @ row # after) = before @ new # after"
  using assms(2)
proof (induction before)
  case Nil
  show ?case using overwrite_is_new [OF assms(1)] assms(1) by simp
next
  case (Cons r before)
  then show ?case by auto
qed

lemma upsert_member:
  fixes new :: "('d, 'v) apod"
  shows "new \<in> set (upsert new tbl)"
proof (induction tbl)
  case Nil
  show ?case by simp
next
  case (Cons row tbl)
  show ?case
  proof (cases "date row = date new")
    case True
    then show ?thesis using overwrite_is_new [OF True] by simp
  next
    case False
    with Cons show ?thesis by simp
  qed
qed

lemma upsert_dates:
  fixes new :: "('d, 'v) apod"
  shows "map date (upsert new tbl) =
     (if date new \<in> date ` set tbl then map date tbl else map date tbl @ [date new])"
  by (induction tbl) auto

lemma upsert_length:
  fixes new :: "('d, 'v) apod"
  shows "length (upsert new tbl) =
     (if date new \<in> date ` set tbl then length tbl else Suc (length tbl))"
  using arg_cong [OF upsert_dates [of new tbl], of length] by (simp split: if_splits)

lemma upsert_distinct:
  fixes new :: "('d, 'v) apod"
  shows "distinct (map date tbl) \<Longrightarrow> distinct (map date (upsert new tbl))"
  by (simp add: upsert_dates)

lemma upsert_rows_of_date:
  fixes new :: "('d, 'v) apod"
  assumes "distinct (map date tbl)"
  shows "filter (\<lambda>row. date row = date new) (upsert new tbl) = [new]"
  using assms
proof (induction tbl)
  case Nil
  show ?case by simp
next
  case (Cons row tbl)
  show ?case
  proof (cases "date row = date new")
    case True
    with Cons.prems have "date new \<notin> date ` set tbl" by auto
    then have "\<forall>row \<in> set tbl. date row \<noteq> date new" by (metis imageI)
    then have "filter (\<lambda>row. date row = date new) tbl = []"
      by (simp add: filter_empty_conv)
    with True show ?thesis using overwrite_is_new [OF True] by simp
  next
    case False
    with Cons show ?thesis by simp
  qed
qed

lemma upsert_other_dates:
  fixes new :: "('d, 'v) apod"
  assumes "k \<noteq> date new"
  shows "filter (\<lambda>row. date row = k) (upsert new tbl) = filter (\<lambda>row. date row = k) tbl"
  using assms by (induction tbl) auto

section \<open>Helper facts: the sorted snapshot\<close>

lemma mset_insert_desc: "mset (insert_desc k x xs) = add_mset x (mset xs)"
  by (induction xs) auto

lemma mset_sort_values_desc: "mset (sort_values_desc k xs) = mset xs"
  unfolding sort_values_desc_def by (induction xs) (simp_all add: mset_insert_desc)

lemma set_sort_values_desc: "set (sort_values_desc k xs) = set xs"
  using arg_cong [OF mset_sort_values_desc [of k xs], of set_mset] by simp

lemma length_sort_values_desc: "length (sort_values_desc k xs) = length xs"
  using arg_cong [OF mset_sort_values_desc [of k xs], of size] by simp

lemma set_insert_desc: "set (insert_desc k x xs) = insert x (set xs)"
  using arg_cong [OF mset_insert_desc [of k x xs], of set_mset] by simp

lemma sorted_insert_desc:
  "sorted_wrt (\<lambda>a b. k b \<le> k a) xs \<Longrightarrow> sorted_wrt (\<lambda>a b. k b \<le> k a) (insert_desc k x xs)"
proof (induction xs)
  case Nil
  show ?case by simp
next
  case (Cons y ys)
  show ?case
  proof (cases "k y \<le> k x")
    case True
    with Cons.prems show ?thesis by (auto intro: order_trans)
  next
    case False
    then have "k x \<le> k y" by simp
    with False Cons show ?thesis by (auto simp: set_insert_desc)
  qed
qed

lemma sorted_sort_values_desc: "sorted_wrt (\<lambda>a b. k b \<le> k a) (sort_values_desc k xs)"
  unfolding sort_values_desc_def by (induction xs) (simp_all add: sorted_insert_desc)

lemma filter_other_dates_length:
  fixes data :: "('d, 'v) apod"
  assumes "distinct (map date rows)" and "date data \<in> date ` set rows"
  shows "Suc (length (filter (\<lambda>row. date row \<noteq> date data) rows)) = length rows"
  using assms
proof (induction rows)
  case Nil
  then show ?case by simp
next
  case (Cons r rows)
  show ?case
  proof (cases "date r = date data")
    case True
    with Cons.prems(1) have "date data \<notin> date ` set rows" by auto
    then have "\<forall>row \<in> set rows. date row \<noteq> date data" by (metis imageI)
    then have "filter (\<lambda>row. date row \<noteq> date data) rows = rows"
      by (simp add: filter_id_conv)
    with True show ?thesis by simp
  next
    case False
    with Cons show ?thesis by auto
  qed
qed

lemma mset_singleton_list: "mset xs = {#x#} \<Longrightarrow> xs = [x]"
  by (cases xs) auto

lemma load_to_csv_rows_of_date:
  fixes data :: "('d::linorder, 'v) apod"
  shows "\<exists>rows. load_to_csv data (Table existing) = Inr rows
    \<and> filter (\<lambda>row. date row = date data) rows = [data]"
proof -
  define rows where
    "rows = sort_values_desc date (filter (\<lambda>row. date row \<noteq> date data) existing @ [data])"
  have "filter_mset (\<lambda>row. date row = date data) (mset rows) = {#data#}"
    by (simp add: rows_def mset_sort_values_desc)
  then have "mset (filter (\<lambda>row. date row = date data) rows) = {#data#}"
    by simp
  then have "filter (\<lambda>row. date row = date data) rows = [data]"
    by (rule mset_singleton_list)
  moreover have "load_to_csv data (Table existing) = Inr rows"
    by (simp add: load_to_csv_def rows_def)
  ultimately show ?thesis by blast
qed

section \<open>The transformer's data quality checks\<close>

text \<open>
  C6 (as the code has it). The checks reject a candidate record exactly when its date is
  missing (None or NaN), its title is missing (None or NaN), or its media type is neither
  \<open>image\<close> nor \<open>video\<close>; they pass exactly when date and title are not missing and the
  media type is one of the two. An empty title is a value, not a missing one.
\<close>

theorem quality_checks_pass_iff:
  "(quality_checks t = Inr ()) =
     (date t \<noteq> JNull \<and> date t \<noteq> JFloat NaN \<and> title t \<noteq> JNull \<and> title t \<noteq> JFloat NaN
      \<and> (media_type t = JStr ''image'' \<or> media_type t = JStr ''video''))
   \<and> (\<exists>e. quality_checks t = Inl e) =
     (date t = JNull \<or> date t = JFloat NaN \<or> title t = JNull \<or> title t = JFloat NaN
      \<or> (media_type t \<noteq> JStr ''image'' \<and> media_type t \<noteq> JStr ''video''))"
  by (auto simp: quality_checks_def isna_def isin_image_video_def)

theorem quality_checks_pass_iff_witness:
  "quality_checks (select_fields ''2025-11-13T00:05:00''
      [(''date'', JStr ''2025-11-13''), (''title'', JStr ''Nebula''),
       (''media_type'', JStr ''video'')]) = Inr ()
   \<and> (\<exists>e. quality_checks (select_fields ''2025-11-13T00:05:00''
      [(''date'', JStr ''2025-11-13''), (''title'', JNull)]) = Inl e)"
  using quality_checks_pass_iff [of "select_fields ''2025-11-13T00:05:00''
      [(''date'', JStr ''2025-11-13''), (''title'', JStr ''Nebula''),
       (''media_type'', JStr ''video'')]"]
    quality_checks_pass_iff [of "select_fields ''2025-11-13T00:05:00''
      [(''date'', JStr ''2025-11-13''), (''title'', JNull)]"]
  by (simp add: select_fields_def get_def get_default_def)

text \<open>
  C6 as stated fails: a raw record whose title is the empty string passes the checks, and
  the transformer returns it.
\<close>

theorem empty_title_passes_validation:
  "title (select_fields ''2025-11-13T00:05:00''
      [(''date'', JStr ''2025-11-13''), (''title'', JStr [])]) = JStr []
   \<and> transform_apod_data ''2025-11-13T00:05:00''
      (JObj [(''date'', JStr ''2025-11-13''), (''title'', JStr [])])
     = Inr (select_fields ''2025-11-13T00:05:00''
         [(''date'', JStr ''2025-11-13''), (''title'', JStr [])])"
  by (simp add: transform_apod_data_def select_fields_def get_def get_default_def
      quality_checks_def isna_def isin_image_video_def)

section \<open>A raw record without a title\<close>

text \<open>
  C9. Take a raw record with no \<open>title\<close> key that is otherwise valid (a date that is not
  missing, a media type that is absent or one of \<open>image\<close> and \<open>video\<close>). The
  transformer puts \<open>N/A\<close> in the title, the title check and with it all three checks
  pass, and the transformer returns that record. The transform task, being the
  transformer run on the record, succeeds at its first try, so both load tasks are run.
  The keyed table then holds exactly one row for the record's date, the record itself
  with title \<open>N/A\<close>; and when the date is a string, the snapshot (new, or merged into an
  existing table) holds exactly one row for that date, again with title \<open>N/A\<close>.
\<close>

theorem missing_title_defaults:
  assumes "map_of d ''title'' = None"
    and "\<not> isna (get d ''date'')"
    and "isin_image_video (get_default d ''media_type'' (JStr ''image''))"
    and "fst (instance_state env extract_task) = Success"
    and "\<And>k. env transform_task k = (\<not> isl (transform_apod_data (now k) (JObj d)))"
    and "distinct (map date tbl)"
  shows "title (select_fields t d) = JStr ''N/A''
    \<and> quality_checks (select_fields t d) = Inr ()
    \<and> transform_apod_data t (JObj d) = Inr (select_fields t d)
    \<and> instance_state env transform_task = (Success, 1)
    \<and> instance_state env load_postgres_task = run_task env load_postgres_task
    \<and> instance_state env load_csv_task = run_task env load_csv_task
    \<and> 0 < snd (instance_state env load_postgres_task)
    \<and> 0 < snd (instance_state env load_csv_task)
    \<and> (\<exists>tbl'. load_to_postgres No_fault (select_fields t d) tbl = (Inr (), tbl')
          \<and> filter (\<lambda>row. date row = get d ''date'') tbl' = [select_fields t d])
    \<and> (\<forall>s. get d ''date'' = JStr s \<longrightarrow>
          (\<exists>row rows. csv_row (select_fields t d) = Some row
             \<and> date row = s \<and> title row = JStr ''N/A''
             \<and> load_to_csv row Absent = Inr [row]
             \<and> load_to_csv row (Table existing) = Inr rows
             \<and> filter (\<lambda>r. date r = s) rows = [row]))"
proof -
  let ?rec = "select_fields t d"
  have ttl: "title (select_fields t' d) = JStr ''N/A''" for t'
    using assms(1) by (simp add: select_fields_def get_default_def)
  have dt: "date (select_fields t' d) = get d ''date''" for t'
    by (simp add: select_fields_def)
  have mt: "media_type (select_fields t' d) = get_default d ''media_type'' (JStr ''image'')" for t'
    by (simp add: select_fields_def)
  have checks: "quality_checks (select_fields t' d) = Inr ()" for t'
    using assms(2,3) by (simp add: quality_checks_def ttl dt mt isna_def)
  from assms(2) have "d \<noteq> []"
    by (auto simp: get_def isna_def)
  then have ok: "transform_apod_data t' (JObj d) = Inr (select_fields t' d)" for t'
    by (simp add: transform_on_dict checks)
  have "env transform_task 0"
    using assms(5) [of 0] ok [of "now 0"] by simp
  then have "run_task env transform_task = (Success, 1)"
    by (rule run_task_first_try)
  with assms(4) have tr: "instance_state env transform_task = (Success, 1)"
    by (simp add: state_transform)
  then have pg: "instance_state env load_postgres_task = run_task env load_postgres_task"
    and csv: "instance_state env load_csv_task = run_task env load_csv_task"
    by (simp_all add: state_load_postgres state_load_csv)
  have tried: "0 < snd (instance_state env load_postgres_task)"
    "0 < snd (instance_state env load_csv_task)"
    by (simp_all add: pg csv run_task_tried)
  have "filter (\<lambda>row. date row = date ?rec) (upsert ?rec tbl) = [?rec]"
    using assms(6) by (rule upsert_rows_of_date)
  then have keyed: "\<exists>tbl'. load_to_postgres No_fault ?rec tbl = (Inr (), tbl')
      \<and> filter (\<lambda>row. date row = get d ''date'') tbl' = [?rec]"
    by (simp add: load_to_postgres_def dt)
  have snapshot: "\<exists>row rows. csv_row ?rec = Some row
      \<and> date row = s \<and> title row = JStr ''N/A''
      \<and> load_to_csv row Absent = Inr [row]
      \<and> load_to_csv row (Table existing) = Inr rows
      \<and> filter (\<lambda>r. date r = s) rows = [row]"
    if "get d ''date'' = JStr s" for s
  proof -
    define row where "row = \<lparr> date = s, title = title ?rec, explanation = explanation ?rec,
        url = url ?rec, hdurl = hdurl ?rec, media_type = media_type ?rec,
        copyright = copyright ?rec, extracted_at = extracted_at ?rec \<rparr>"
    have r: "csv_row ?rec = Some row"
      using that by (simp add: csv_row_def dt row_def)
    have ds: "date row = s" and tt: "title row = JStr ''N/A''"
      by (simp_all add: row_def ttl)
    have new: "load_to_csv row Absent = Inr [row]"
      by (simp add: load_to_csv_def)
    from load_to_csv_rows_of_date [of row existing] obtain rows
      where "load_to_csv row (Table existing) = Inr rows"
        and "filter (\<lambda>r. date r = s) rows = [row]"
      by (auto simp: ds)
    with r ds tt new show ?thesis by blast
  qed
  from ttl [of t] checks [of t] ok [of t] tr pg csv tried keyed snapshot
  show ?thesis by blast
qed

theorem missing_title_defaults_witness:
  "map_of [(''date'', JStr ''2025-11-13''), (''media_type'', JStr ''video'')] ''title'' = None
   \<and> transform_apod_data ''2025-11-13T00:05:00''
        (JObj [(''date'', JStr ''2025-11-13''), (''media_type'', JStr ''video'')])
      = Inr (select_fields ''2025-11-13T00:05:00''
          [(''date'', JStr ''2025-11-13''), (''media_type'', JStr ''video'')])
   \<and> title (select_fields ''2025-11-13T00:05:00''
        [(''date'', JStr ''2025-11-13''), (''media_type'', JStr ''video'')]) = JStr ''N/A''
   \<and> instance_state (\<lambda>task k. True) transform_task = (Success, 1)
   \<and> 0 < snd (instance_state (\<lambda>task k. True) load_postgres_task)
   \<and> 0 < snd (instance_state (\<lambda>task k. True) load_csv_task)
   \<and> (\<exists>row rows. csv_row (select_fields ''2025-11-13T00:05:00''
          [(''date'', JStr ''2025-11-13''), (''media_type'', JStr ''video'')]) = Some row
        \<and> date row = ''2025-11-13'' \<and> title row = JStr ''N/A''
        \<and> load_to_csv row (Table []) = Inr rows
        \<and> filter (\<lambda>r. date r = ''2025-11-13'') rows = [row])"
proof -
  let ?d = "[(''date'', JStr ''2025-11-13''), (''media_type'', JStr ''video'')]"
  let ?env = "\<lambda>(task :: task) (k :: nat). True"
  have no_title: "map_of ?d ''title'' = None"
    by simp
  have dated: "\<not> isna (get ?d ''date'')"
    by (simp add: get_def isna_def)
  have media: "isin_image_video (get_default ?d ''media_type'' (JStr ''image''))"
    by (simp add: get_default_def isin_image_video_def)
  have ex: "fst (instance_state ?env extract_task) = Success"
    by (simp add: state_extract run_task_first_try)
  have link: "?env transform_task k
      = (\<not> isl (transform_apod_data ((\<lambda>k. ''2025-11-13T00:05:00'') k) (JObj ?d)))"
    for k :: nat
    by (simp add: transform_apod_data_def select_fields_def get_def get_default_def
        quality_checks_def isna_def isin_image_video_def)
  have keys: "distinct (map date ([] :: (json, json) apod list))"
    by simp
  have s: "get ?d ''date'' = JStr ''2025-11-13''"
    by (simp add: get_def)
  from missing_title_defaults [of ?d ?env "\<lambda>k. ''2025-11-13T00:05:00''" "[]"
      "''2025-11-13T00:05:00''" "[]", OF no_title dated media ex link keys] no_title s
  show ?thesis by blast
qed

section \<open>A raw record without a date\<close>

text \<open>
  C10. A raw record with no \<open>date\<close> key, or with a null date, never passes the
  transformer: a non-empty record fails the date check (the first of the three), and the
  empty record is refused before the checks. The date is the one selected field without a
  default: every other key that is absent gets a value that is not null. When the
  transform task is the transformer run on such a record, neither sink task is ever run.
\<close>

theorem missing_date_fails:
  assumes "map_of d ''date'' = None \<or> map_of d ''date'' = Some JNull"
    and "\<And>k. env transform_task k = (\<not> isl (transform_apod_data (now k) (JObj d)))"
  shows "isl (transform_apod_data t (JObj d))
    \<and> (d \<noteq> [] \<longrightarrow> transform_apod_data t (JObj d) = Inl (AssertionError ''Date field cannot be null''))
    \<and> date (select_fields t d) = JNull
    \<and> (map_of d ''title'' = None \<longrightarrow> title (select_fields t d) = JStr ''N/A'')
    \<and> (map_of d ''explanation'' = None \<longrightarrow> explanation (select_fields t d) = JStr ''N/A'')
    \<and> (map_of d ''url'' = None \<longrightarrow> url (select_fields t d) = JStr ''N/A'')
    \<and> (map_of d ''hdurl'' = None \<longrightarrow> hdurl (select_fields t d) = JStr ''N/A'')
    \<and> (map_of d ''media_type'' = None \<longrightarrow> media_type (select_fields t d) = JStr ''image'')
    \<and> (map_of d ''copyright'' = None \<longrightarrow> copyright (select_fields t d) = JStr ''Public Domain'')
    \<and> instance_state env load_postgres_task = (Upstream_failed, 0)
    \<and> instance_state env load_csv_task = (Upstream_failed, 0)"
proof -
  have null: "date (select_fields t' d) = JNull" for t'
    using assms(1) by (auto simp: select_fields_def get_def)
  have nonempty: "transform_apod_data t' (JObj d) = Inl (AssertionError ''Date field cannot be null'')"
    if "d \<noteq> []" for t'
    using that null [of t'] by (simp add: transform_on_dict quality_checks_date_null isna_def)
  have fails: "isl (transform_apod_data t' (JObj d))" for t'
    using nonempty [of t'] transform_on_empty_dict [of t'] by (cases "d = []") simp_all
  have defaults:
    "map_of d ''title'' = None \<longrightarrow> title (select_fields t d) = JStr ''N/A''"
    "map_of d ''explanation'' = None \<longrightarrow> explanation (select_fields t d) = JStr ''N/A''"
    "map_of d ''url'' = None \<longrightarrow> url (select_fields t d) = JStr ''N/A''"
    "map_of d ''hdurl'' = None \<longrightarrow> hdurl (select_fields t d) = JStr ''N/A''"
    "map_of d ''media_type'' = None \<longrightarrow> media_type (select_fields t d) = JStr ''image''"
    "map_of d ''copyright'' = None \<longrightarrow> copyright (select_fields t d) = JStr ''Public Domain''"
    by (simp_all add: select_fields_def get_default_def)
  have "\<not> env transform_task k" for k
    using assms(2) [of k] fails [of "now k"] by simp
  then have "run_task env transform_task = (Failed, 3)"
    using run_tries_all_fail [of "env transform_task" 2 0]
    by (simp add: run_task_def task_retries_simp)
  then have "fst (instance_state env transform_task) \<noteq> Success"
    by (simp add: state_transform)
  then have sinks: "instance_state env load_postgres_task = (Upstream_failed, 0)"
    "instance_state env load_csv_task = (Upstream_failed, 0)"
    by (simp_all add: state_load_postgres state_load_csv)
  from fails [of t] nonempty [of t] null [of t] defaults sinks show ?thesis by blast
qed

theorem missing_date_fails_witness:
  "map_of [(''title'', JStr ''Nebula'')] ''date'' = None
   \<and> transform_apod_data ''2025-11-13T00:05:00'' (JObj [(''title'', JStr ''Nebula'')])
      = Inl (AssertionError ''Date field cannot be null'')
   \<and> instance_state
        (\<lambda>task k. task \<noteq> transform_task \<and> task \<noteq> load_csv_task) load_postgres_task
      = (Upstream_failed, 0)"
  using missing_date_fails [where d = "[(''title'', JStr ''Nebula'')]"
      and env = "\<lambda>task k. task \<noteq> transform_task \<and> task \<noteq> load_csv_task"
      and now = "\<lambda>k. ''2025-11-13T00:05:00''" and t = "''2025-11-13T00:05:00''"]
  by (simp add: transform_apod_data_def select_fields_def get_def get_default_def
      quality_checks_def isna_def)

section \<open>The extractor's retry loop\<close>

lemma upt_0_3: "[0..<3] = [0, 1, 2]"
  by (simp add: upt_rec)

lemma str_nat_3: "str_nat 3 = ''3''"
  by (simp add: str_nat.simps)

lemma extract_unroll:
  "extract_apod_data j api =
     (case try_request j (api 0) of
        Inr res \<Rightarrow> (res, [Get])
      | Inl e0 \<Rightarrow>
          (case try_request j (api 1) of
             Inr res \<Rightarrow> (res, [Get, Sleep 1, Get])
           | Inl e1 \<Rightarrow>
               (case try_request j (api 2) of
                  Inr res \<Rightarrow> (res, [Get, Sleep 1, Get, Sleep 2, Get])
                | Inl e2 \<Rightarrow>
                    (Inl (Exception (''Failed to fetch APOD data after 3 attempts: '' @ e2)),
                     [Get, Sleep 1, Get, Sleep 2, Get]))))"
  by (simp add: extract_apod_data_def max_retries_def upt_0_3 str_nat_3 split: sum.splits)

lemma try_request_failure: "transport_failure r e \<Longrightarrow> try_request j r = Inl e"
  by (auto simp: transport_failure_def try_request_def)

lemma try_request_record: "try_request j (Body (JObj d)) = Inr (Inr (JObj d))"
  by (simp add: try_request_def)

lemma try_request_unparsable:
  "try_request j (Body_unparsable e) = (if j then Inl e else Inr (Inl (JSONDecodeError e)))"
  by (simp add: try_request_def)

lemma extract_requests_bound:
  "length (filter (\<lambda>ev. ev = Get) (snd (extract_apod_data j api))) \<le> 3"
  by (simp add: extract_unroll split: sum.splits)

text \<open>
  C3. Whatever the source answers, the extractor makes at most three requests. It returns
  the record of the first request that is answered with one, having slept
  \<open>2 ^ attempt\<close> seconds after each transport or HTTP failure before it (1 second after
  the first, 2 after the second), and when all three requests fail that way it raises the
  exception whose message ends with the cause of the last failure, without a further sleep.
\<close>

theorem extractor_retries:
  "length (filter (\<lambda>ev. ev = Get) (snd (extract_apod_data j api))) \<le> 3
   \<and> (api 0 = Body (JObj d) \<longrightarrow> extract_apod_data j api = (Inr (JObj d), [Get]))
   \<and> (transport_failure (api 0) ea \<and> api 1 = Body (JObj d) \<longrightarrow>
        extract_apod_data j api = (Inr (JObj d), [Get, Sleep (2 ^ 0), Get]))
   \<and> (transport_failure (api 0) ea \<and> transport_failure (api 1) eb \<and> api 2 = Body (JObj d) \<longrightarrow>
        extract_apod_data j api =
          (Inr (JObj d), [Get, Sleep (2 ^ 0), Get, Sleep (2 ^ 1), Get]))
   \<and> (transport_failure (api 0) ea \<and> transport_failure (api 1) eb
        \<and> transport_failure (api 2) ec \<longrightarrow>
        extract_apod_data j api =
          (Inl (Exception (''Failed to fetch APOD data after 3 attempts: '' @ ec)),
           [Get, Sleep (2 ^ 0), Get, Sleep (2 ^ 1), Get]))"
proof -
  have first: "extract_apod_data j api = (Inr (JObj d), [Get])" if "api 0 = Body (JObj d)"
    using that by (simp add: extract_unroll try_request_record)
  have second: "extract_apod_data j api = (Inr (JObj d), [Get, Sleep (2 ^ 0), Get])"
    if "transport_failure (api 0) ea" "api 1 = Body (JObj d)"
    using that by (simp add: extract_unroll try_request_record try_request_failure)
  have third: "extract_apod_data j api =
      (Inr (JObj d), [Get, Sleep (2 ^ 0), Get, Sleep (2 ^ 1), Get])"
    if "transport_failure (api 0) ea" "transport_failure (api 1) eb" "api 2 = Body (JObj d)"
    using that by (simp add: extract_unroll try_request_record try_request_failure)
  have exhausted: "extract_apod_data j api =
      (Inl (Exception (''Failed to fetch APOD data after 3 attempts: '' @ ec)),
       [Get, Sleep (2 ^ 0), Get, Sleep (2 ^ 1), Get])"
    if "transport_failure (api 0) ea" "transport_failure (api 1) eb"
      "transport_failure (api 2) ec"
    using that by (simp add: extract_unroll try_request_failure)
  from extract_requests_bound [of j api] first second third exhausted show ?thesis by blast
qed

theorem extractor_retries_witness:
  "transport_failure (Request_fails ''connection refused'') ''connection refused''
   \<and> transport_failure (Http_error ''503 Server Error'') ''503 Server Error''
   \<and> extract_apod_data True
        (\<lambda>n. if n = 0 then Request_fails ''connection refused''
              else if n = 1 then Http_error ''503 Server Error''
              else Body (JObj [(''date'', JStr ''2025-11-13'')]))
      = (Inr (JObj [(''date'', JStr ''2025-11-13'')]), [Get, Sleep 1, Get, Sleep 2, Get])"
  using extractor_retries [where j = True and ea = "''connection refused''"
      and eb = "''503 Server Error''" and d = "[(''date'', JStr ''2025-11-13'')]"
      and api = "\<lambda>n. if n = 0 then Request_fails ''connection refused''
              else if n = 1 then Http_error ''503 Server Error''
              else Body (JObj [(''date'', JStr ''2025-11-13'')])"]
  by (simp add: transport_failure_def)

section \<open>A body that does not parse\<close>

text \<open>
  C4 (as the code has it). The extractor has no error of its own for a body that does not
  parse: \<^verbatim>\<open>response.json()\<close> raises the library's JSON decode error inside the
  \<^verbatim>\<open>try\<close>. Where that error is a RequestException, the extractor treats the parse
  failure exactly as it treats a failed request (sleep, retry, and the same exception
  after three failures). Where it is not, the decode error leaves the extractor at once:
  no sleep and no request follows it.
\<close>

theorem parse_failure_handling:
  "extract_apod_data True api =
     extract_apod_data True
       (\<lambda>n. case api n of Body_unparsable e \<Rightarrow> Request_fails e | r \<Rightarrow> r)
   \<and> (api 0 = Body_unparsable msg \<longrightarrow>
        extract_apod_data False api = (Inl (JSONDecodeError msg), [Get]))
   \<and> (transport_failure (api 0) ea \<and> api 1 = Body_unparsable msg \<longrightarrow>
        extract_apod_data False api = (Inl (JSONDecodeError msg), [Get, Sleep 1, Get]))
   \<and> (transport_failure (api 0) ea \<and> transport_failure (api 1) eb
        \<and> api 2 = Body_unparsable msg \<longrightarrow>
        extract_apod_data False api =
          (Inl (JSONDecodeError msg), [Get, Sleep 1, Get, Sleep 2, Get]))"
proof -
  have same: "try_request True (case r of Body_unparsable e \<Rightarrow> Request_fails e | r \<Rightarrow> r)
      = try_request True r" for r
    by (cases r) (simp_all add: try_request_def)
  have caught: "extract_apod_data True api =
      extract_apod_data True (\<lambda>n. case api n of Body_unparsable e \<Rightarrow> Request_fails e | r \<Rightarrow> r)"
    by (simp only: extract_unroll same)
  have first: "extract_apod_data False api = (Inl (JSONDecodeError msg), [Get])"
    if "api 0 = Body_unparsable msg"
    using that by (simp add: extract_unroll try_request_unparsable)
  have second: "extract_apod_data False api = (Inl (JSONDecodeError msg), [Get, Sleep 1, Get])"
    if "transport_failure (api 0) ea" "api 1 = Body_unparsable msg"
    using that by (simp add: extract_unroll try_request_unparsable try_request_failure)
  have third: "extract_apod_data False api =
      (Inl (JSONDecodeError msg), [Get, Sleep 1, Get, Sleep 2, Get])"
    if "transport_failure (api 0) ea" "transport_failure (api 1) eb"
      "api 2 = Body_unparsable msg"
    using that by (simp add: extract_unroll try_request_unparsable try_request_failure)
  from caught first second third show ?thesis by blast
qed

theorem parse_failure_handling_witness:
  "extract_apod_data False
     (\<lambda>n. if n = 0 then Request_fails ''timed out'' else Body_unparsable ''Expecting value'')
   = (Inl (JSONDecodeError ''Expecting value''), [Get, Sleep 1, Get])"
  using parse_failure_handling [where msg = "''Expecting value''" and ea = "''timed out''"
      and api = "\<lambda>n. if n = 0 then Request_fails ''timed out''
                      else Body_unparsable ''Expecting value''"]
  by (simp add: transport_failure_def)

text \<open>
  C4 as stated fails where the decode error is a RequestException (requests 2.27 and
  later): a body that does not parse is followed by a sleep and a second request, and
  three such bodies end in the same exception as three failed requests.
\<close>

theorem parse_failure_is_retried:
  "extract_apod_data True
     (\<lambda>n. if n = 0 then Body_unparsable ''Expecting value''
           else Body (JObj [(''date'', JStr ''2025-11-13'')]))
   = (Inr (JObj [(''date'', JStr ''2025-11-13'')]), [Get, Sleep 1, Get])
   \<and> extract_apod_data True (\<lambda>n. Body_unparsable ''Expecting value'')
   = (Inl (Exception ''Failed to fetch APOD data after 3 attempts: Expecting value''),
      [Get, Sleep 1, Get, Sleep 2, Get])"
  by (simp add: extract_unroll try_request_def)

section \<open>The keyed-upsert writer\<close>

text \<open>
  C2. On a table with one row per date, the write inserts the record when no row has its
  date, and otherwise overwrites that row in place with the record's other fields. So
  two writes for one date leave exactly one row for it, holding the second record, and
  two writes for two dates leave one row for each: two rows in a table that was empty.
\<close>

theorem upsert_last_write_wins:
  fixes a b :: "('d, 'v) apod"
  assumes "distinct (map date tbl)"
  shows "load_to_postgres No_fault a tbl = (Inr (), upsert a tbl)
    \<and> (date a \<notin> date ` set tbl \<longrightarrow> upsert a tbl = tbl @ [a])
    \<and> (tbl = before @ row # after \<and> date row = date a \<longrightarrow> upsert a tbl = before @ a # after)
    \<and> distinct (map date (upsert b (upsert a tbl)))
    \<and> filter (\<lambda>row. date row = date b) (upsert b (upsert a tbl)) = [b]
    \<and> (date a = date b \<longrightarrow> length (upsert b (upsert a tbl)) = length (upsert a tbl))
    \<and> (date a \<noteq> date b \<longrightarrow>
         filter (\<lambda>row. date row = date a) (upsert b (upsert a tbl)) = [a]
         \<and> length (upsert b (upsert a [])) = 2)"
proof -
  have run: "load_to_postgres No_fault a tbl = (Inr (), upsert a tbl)"
    by (simp add: load_to_postgres_def)
  have ins: "date a \<notin> date ` set tbl \<longrightarrow> upsert a tbl = tbl @ [a]"
    by (simp add: upsert_absent)
  have upd: "upsert a tbl = before @ a # after" if "tbl = before @ row # after" "date row = date a"
  proof -
    from assms that(1) have "date row \<notin> date ` set before" by auto
    with that show ?thesis by (simp add: upsert_present)
  qed
  have d1: "distinct (map date (upsert a tbl))"
    using assms by (rule upsert_distinct)
  then have d2: "distinct (map date (upsert b (upsert a tbl)))"
    by (rule upsert_distinct)
  have last: "filter (\<lambda>row. date row = date b) (upsert b (upsert a tbl)) = [b]"
    using d1 by (rule upsert_rows_of_date)
  have "date a \<in> date ` set (upsert a tbl)"
    using upsert_member [of a tbl] by (rule imageI)
  then have same: "date a = date b \<longrightarrow> length (upsert b (upsert a tbl)) = length (upsert a tbl)"
    by (auto simp: upsert_length)
  have other: "filter (\<lambda>row. date row = date a) (upsert b (upsert a tbl)) = [a]"
    if "date a \<noteq> date b"
    using that upsert_other_dates [of "date a" b "upsert a tbl"]
      upsert_rows_of_date [OF assms, of a] by simp
  have two: "length (upsert b (upsert a [])) = 2" if "date a \<noteq> date b"
    using that by simp
  from run ins upd d2 last same other two show ?thesis by blast
qed

theorem upsert_last_write_wins_witness:
  "upsert \<lparr> date = ''2025-11-13'', title = ''Second'', explanation = ''e2'', url = ''u2'',
            hdurl = ''h2'', media_type = ''video'', copyright = ''c2'',
            extracted_at = ''2025-11-13T09:00:00'' \<rparr>
     (upsert \<lparr> date = ''2025-11-13'', title = ''First'', explanation = ''e1'', url = ''u1'',
               hdurl = ''h1'', media_type = ''image'', copyright = ''c1'',
               extracted_at = ''2025-11-13T00:05:00'' \<rparr>
        [\<lparr> date = ''2025-11-12'', title = ''Older'', explanation = ''e0'', url = ''u0'',
            hdurl = ''h0'', media_type = ''image'', copyright = ''c0'',
            extracted_at = ''2025-11-12T00:05:00'' \<rparr>])
   = [\<lparr> date = ''2025-11-12'', title = ''Older'', explanation = ''e0'', url = ''u0'',
        hdurl = ''h0'', media_type = ''image'', copyright = ''c0'',
        extracted_at = ''2025-11-12T00:05:00'' \<rparr>,
      \<lparr> date = ''2025-11-13'', title = ''Second'', explanation = ''e2'', url = ''u2'',
        hdurl = ''h2'', media_type = ''video'', copyright = ''c2'',
        extracted_at = ''2025-11-13T09:00:00'' \<rparr>]"
  using upsert_last_write_wins [where
      a = "\<lparr> date = ''2025-11-13'', title = ''First'', explanation = ''e1'', url = ''u1'',
               hdurl = ''h1'', media_type = ''image'', copyright = ''c1'',
               extracted_at = ''2025-11-13T00:05:00'' \<rparr>"
      and b = "\<lparr> date = ''2025-11-13'', title = ''Second'', explanation = ''e2'', url = ''u2'',
            hdurl = ''h2'', media_type = ''video'', copyright = ''c2'',
            extracted_at = ''2025-11-13T09:00:00'' \<rparr>"
      and tbl = "[\<lparr> date = ''2025-11-12'', title = ''Older'', explanation = ''e0'', url = ''u0'',
            hdurl = ''h0'', media_type = ''image'', copyright = ''c0'',
            extracted_at = ''2025-11-12T00:05:00'' \<rparr>]"
      and before = "[]" and after = "[]"
      and row = "\<lparr> date = ''2025-11-12'', title = ''Older'', explanation = ''e0'', url = ''u0'',
            hdurl = ''h0'', media_type = ''image'', copyright = ''c0'',
            extracted_at = ''2025-11-12T00:05:00'' \<rparr>"]
  by simp

section \<open>The snapshot writer\<close>

lemma sorted_desc_strict:
  "sorted_wrt (\<lambda>a b. k b \<le> k a) xs \<Longrightarrow> distinct (map k xs) \<Longrightarrow>
   sorted_wrt (\<lambda>a b. (k b :: 'k::linorder) < k a) xs"
  by (induction xs) (auto simp: less_le image_iff)

text \<open>
  C1. With no file, the snapshot is the record alone. With a file, the snapshot holds the
  rows of the file whose date is not the record's, and the record, each as often as it was
  there, in descending order of date. When the file has three rows with distinct dates,
  one of them the record's date, the snapshot has three rows with distinct dates, in
  strictly descending order, and its one row for the record's date is the record.
\<close>

theorem snapshot_merge_dedup_sort:
  fixes data :: "('d::linorder, 'v) apod"
  shows "load_to_csv data Absent = Inr [data]
    \<and> (\<exists>rows. load_to_csv data (Table existing) = Inr rows
         \<and> mset rows = mset (filter (\<lambda>row. date row \<noteq> date data) existing) + {#data#}
         \<and> sorted_wrt (\<lambda>r s. date s \<le> date r) rows
         \<and> (length existing = 3 \<and> distinct (map date existing)
              \<and> date data \<in> date ` set existing \<longrightarrow>
              length rows = 3 \<and> filter (\<lambda>row. date row = date data) rows = [data]
              \<and> distinct (map date rows) \<and> sorted_wrt (\<lambda>r s. date s < date r) rows))"
proof -
  define kept where "kept = filter (\<lambda>row. date row \<noteq> date data) existing"
  define rows where "rows = sort_values_desc date (kept @ [data])"
  have run: "load_to_csv data (Table existing) = Inr rows"
    by (simp add: load_to_csv_def rows_def kept_def)
  have perm: "mset rows = mset kept + {#data#}"
    by (simp add: rows_def mset_sort_values_desc)
  have sorted: "sorted_wrt (\<lambda>r s. date s \<le> date r) rows"
    unfolding rows_def by (rule sorted_sort_values_desc)
  have three: "length rows = 3 \<and> filter (\<lambda>row. date row = date data) rows = [data]
      \<and> distinct (map date rows) \<and> sorted_wrt (\<lambda>r s. date s < date r) rows"
    if len: "length existing = 3" and dist: "distinct (map date existing)"
      and dup: "date data \<in> date ` set existing"
  proof -
    have "Suc (length kept) = length existing"
      unfolding kept_def using dist dup by (rule filter_other_dates_length)
    with len have l: "length rows = 3"
      by (simp add: rows_def length_sort_values_desc)
    have "filter_mset (\<lambda>row. date row = date data) (mset rows) = {#data#}"
      by (simp add: perm kept_def)
    then have "mset (filter (\<lambda>row. date row = date data) rows) = {#data#}"
      by simp
    then have one: "filter (\<lambda>row. date row = date data) rows = [data]"
      by (rule mset_singleton_list)
    have "distinct (map date kept)"
      unfolding kept_def using dist by (simp add: distinct_map_filter)
    moreover have "date data \<notin> date ` set kept"
      by (auto simp: kept_def)
    ultimately have "distinct (map date (kept @ [data]))"
      by simp
    moreover have "mset (map date rows) = mset (map date (kept @ [data]))"
      using perm by simp
    ultimately have d: "distinct (map date rows)"
      by (metis mset_eq_imp_distinct_iff)
    from sorted d have "sorted_wrt (\<lambda>r s. date s < date r) rows"
      by (rule sorted_desc_strict)
    with l one d show ?thesis by simp
  qed
  have "load_to_csv data Absent = Inr [data]"
    by (simp add: load_to_csv_def)
  with run perm sorted three show ?thesis
    unfolding kept_def by blast
qed

theorem snapshot_merge_dedup_sort_witness:
  "\<exists>rows. load_to_csv
       \<lparr> date = ''2025-11-13'', title = ''New'', explanation = ''e'', url = ''u'',
         hdurl = ''h'', media_type = ''image'', copyright = ''c'',
         extracted_at = ''2025-11-14T00:05:00'' \<rparr>
       (Table
         [\<lparr> date = ''2025-11-14'', title = ''C'', explanation = ''e'', url = ''u'',
             hdurl = ''h'', media_type = ''image'', copyright = ''c'',
             extracted_at = ''2025-11-14T00:05:00'' \<rparr>,
          \<lparr> date = ''2025-11-13'', title = ''Old'', explanation = ''e'', url = ''u'',
             hdurl = ''h'', media_type = ''image'', copyright = ''c'',
             extracted_at = ''2025-11-13T00:05:00'' \<rparr>,
          \<lparr> date = ''2025-11-12'', title = ''A'', explanation = ''e'', url = ''u'',
             hdurl = ''h'', media_type = ''image'', copyright = ''c'',
             extracted_at = ''2025-11-12T00:05:00'' \<rparr>]) = Inr rows
     \<and> length rows = 3
     \<and> filter (\<lambda>row. date row = ''2025-11-13'') rows
        = [\<lparr> date = ''2025-11-13'', title = ''New'', explanation = ''e'', url = ''u'',
             hdurl = ''h'', media_type = ''image'', copyright = ''c'',
             extracted_at = ''2025-11-14T00:05:00'' \<rparr>]
     \<and> sorted_wrt (\<lambda>r s. date s < date r) rows"
  using snapshot_merge_dedup_sort [where
      data = "\<lparr> date = ''2025-11-13'', title = ''New'', explanation = ''e'', url = ''u'',
         hdurl = ''h'', media_type = ''image'', copyright = ''c'',
         extracted_at = ''2025-11-14T00:05:00'' \<rparr>"
      and existing =
        "[\<lparr> date = ''2025-11-14'', title = ''C'', explanation = ''e'', url = ''u'',
             hdurl = ''h'', media_type = ''image'', copyright = ''c'',
             extracted_at = ''2025-11-14T00:05:00'' \<rparr>,
          \<lparr> date = ''2025-11-13'', title = ''Old'', explanation = ''e'', url = ''u'',
             hdurl = ''h'', media_type = ''image'', copyright = ''c'',
             extracted_at = ''2025-11-13T00:05:00'' \<rparr>,
          \<lparr> date = ''2025-11-12'', title = ''A'', explanation = ''e'', url = ''u'',
             hdurl = ''h'', media_type = ''image'', copyright = ''c'',
             extracted_at = ''2025-11-12T00:05:00'' \<rparr>]"]
  by auto

section \<open>The join before the versioning tasks\<close>

text \<open>
  C7. The DVC task is tried only when both load tasks have succeeded, and the Git task
  only when the DVC task has too. When either load task has not succeeded, both
  versioning tasks are set to upstream-failed without a try, and the run is failed. A
  load task that failed did so on its third try. Once the transform task has succeeded,
  each load task is run whatever becomes of the other: its state is that of its own
  tries.
\<close>

theorem versioning_needs_both_sinks:
  "(fst (instance_state env load_postgres_task) \<noteq> Success
      \<or> fst (instance_state env load_csv_task) \<noteq> Success \<longrightarrow>
      instance_state env dvc_task = (Upstream_failed, 0)
      \<and> instance_state env git_task = (Upstream_failed, 0)
      \<and> dag_run_state env = Run_failed)
   \<and> (0 < snd (instance_state env dvc_task) \<longrightarrow>
        fst (instance_state env load_postgres_task) = Success
        \<and> fst (instance_state env load_csv_task) = Success)
   \<and> (0 < snd (instance_state env git_task) \<longrightarrow>
        fst (instance_state env load_postgres_task) = Success
        \<and> fst (instance_state env load_csv_task) = Success
        \<and> fst (instance_state env dvc_task) = Success)
   \<and> (fst (instance_state env load_postgres_task) = Failed \<longrightarrow>
        snd (instance_state env load_postgres_task) = 1 + retries default_args)
   \<and> (fst (instance_state env load_csv_task) = Failed \<longrightarrow>
        snd (instance_state env load_csv_task) = 1 + retries default_args)
   \<and> (fst (instance_state env transform_task) = Success \<longrightarrow>
        instance_state env load_postgres_task = run_tries (env load_postgres_task) 2 0
        \<and> instance_state env load_csv_task = run_tries (env load_csv_task) 2 0
        \<and> 0 < snd (instance_state env load_postgres_task)
        \<and> 0 < snd (instance_state env load_csv_task))"
proof -
  let ?pg = "instance_state env load_postgres_task"
  let ?csv = "instance_state env load_csv_task"
  have skipped: "instance_state env dvc_task = (Upstream_failed, 0)
      \<and> instance_state env git_task = (Upstream_failed, 0) \<and> dag_run_state env = Run_failed"
    if "fst ?pg \<noteq> Success \<or> fst ?csv \<noteq> Success"
  proof -
    from that have dvc: "instance_state env dvc_task = (Upstream_failed, 0)"
      by (auto simp: state_dvc)
    then have git: "instance_state env git_task = (Upstream_failed, 0)"
      by (simp add: state_git)
    then have "dag_run_state env = Run_failed"
      by (simp add: dag_run_state_def leaves_simp)
    with dvc git show ?thesis by simp
  qed
  have dvc_tried: "fst ?pg = Success \<and> fst ?csv = Success"
    if "0 < snd (instance_state env dvc_task)"
    using that by (simp add: state_dvc split: if_splits)
  have git_tried: "fst ?pg = Success \<and> fst ?csv = Success
      \<and> fst (instance_state env dvc_task) = Success"
    if "0 < snd (instance_state env git_task)"
  proof -
    from that have d: "fst (instance_state env dvc_task) = Success"
      by (simp add: state_git split: if_splits)
    then have "fst ?pg = Success \<and> fst ?csv = Success"
      by (simp add: state_dvc split: if_splits)
    with d show ?thesis by simp
  qed
  have pg_failed: "snd ?pg = 1 + retries default_args" if "fst ?pg = Failed"
    using that run_task_failed_tries [of env load_postgres_task]
    by (simp add: state_load_postgres default_args_def split: if_splits)
  have csv_failed: "snd ?csv = 1 + retries default_args" if "fst ?csv = Failed"
    using that run_task_failed_tries [of env load_csv_task]
    by (simp add: state_load_csv default_args_def split: if_splits)
  have both_run: "?pg = run_tries (env load_postgres_task) 2 0
      \<and> ?csv = run_tries (env load_csv_task) 2 0 \<and> 0 < snd ?pg \<and> 0 < snd ?csv"
    if "fst (instance_state env transform_task) = Success"
    using that run_task_tried [of env load_postgres_task] run_task_tried [of env load_csv_task]
    by (simp add: state_load_postgres state_load_csv run_task_def task_retries_simp)
  from skipped dvc_tried git_tried pg_failed csv_failed both_run show ?thesis by blast
qed

theorem versioning_needs_both_sinks_witness:
  "instance_state (\<lambda>task k. task \<noteq> load_postgres_task) load_postgres_task = (Failed, 3)
   \<and> instance_state (\<lambda>task k. task \<noteq> load_postgres_task) load_csv_task = (Success, 1)
   \<and> instance_state (\<lambda>task k. task \<noteq> load_postgres_task) dvc_task = (Upstream_failed, 0)
   \<and> instance_state (\<lambda>task k. task \<noteq> load_postgres_task) git_task = (Upstream_failed, 0)
   \<and> dag_run_state (\<lambda>task k. task \<noteq> load_postgres_task) = Run_failed"
proof -
  let ?env = "\<lambda>(task :: task) (k :: nat). task \<noteq> load_postgres_task"
  have "instance_state ?env extract_task = (Success, 1)"
    by (simp add: state_extract run_task_first_try)
  then have "instance_state ?env transform_task = (Success, 1)"
    by (simp add: state_transform run_task_first_try)
  then have pg: "instance_state ?env load_postgres_task = (Failed, 3)"
    and csv: "instance_state ?env load_csv_task = (Success, 1)"
    by (simp_all add: state_load_postgres state_load_csv run_task_first_try run_task_all_fail)
  from pg have "fst (instance_state ?env load_postgres_task) \<noteq> Success
      \<or> fst (instance_state ?env load_csv_task) \<noteq> Success"
    by simp
  with versioning_needs_both_sinks [of ?env] pg csv show ?thesis by simp
qed

section \<open>A validation failure in the transform task\<close>

text \<open>
  C5 (as the code has it). The transform task takes \<open>retries = 2\<close> from the DAG's default
  arguments like every other task, and an assertion that fails is an ordinary failure of
  a try. When the extract task has succeeded and the transformer fails a data quality
  check on the record it pulls, every try fails with the same error (the checks do not
  read the clock), the scheduler makes three tries before it sets the task to failed,
  no later task is run, and the run is failed.
\<close>

theorem validation_failure_is_retried:
  assumes "fst (instance_state env extract_task) = Success"
    and "\<And>k. env transform_task k = (\<not> isl (transform_apod_data (now k) raw))"
    and "transform_apod_data (now 0) raw = Inl (AssertionError msg)"
  shows "task_retries transform_task = retries default_args
    \<and> retries default_args = 2
    \<and> (\<forall>k. transform_apod_data (now k) raw = Inl (AssertionError msg))
    \<and> instance_state env transform_task = (Failed, 3)
    \<and> instance_state env load_postgres_task = (Upstream_failed, 0)
    \<and> instance_state env load_csv_task = (Upstream_failed, 0)
    \<and> instance_state env dvc_task = (Upstream_failed, 0)
    \<and> instance_state env git_task = (Upstream_failed, 0)
    \<and> dag_run_state env = Run_failed"
proof -
  have cfg: "task_retries transform_task = retries default_args \<and> retries default_args = 2"
    by (simp add: task_retries_def operator_retries_def default_args_def)
  have same: "transform_apod_data (now k) raw = Inl (AssertionError msg)" for k
    using assms(3) by (rule transform_error_clock)
  then have "\<not> env transform_task k" for k
    using assms(2) [of k] by simp
  then have "run_task env transform_task = (Failed, 3)"
    by (rule run_task_all_fail)
  with assms(1) have tr: "instance_state env transform_task = (Failed, 3)"
    by (simp add: state_transform)
  then have pg: "instance_state env load_postgres_task = (Upstream_failed, 0)"
    and csv: "instance_state env load_csv_task = (Upstream_failed, 0)"
    by (simp_all add: state_load_postgres state_load_csv)
  then have dvc: "instance_state env dvc_task = (Upstream_failed, 0)"
    by (simp add: state_dvc)
  then have git: "instance_state env git_task = (Upstream_failed, 0)"
    by (simp add: state_git)
  then have "dag_run_state env = Run_failed"
    by (simp add: dag_run_state_def leaves_simp)
  with cfg same tr pg csv dvc git show ?thesis by blast
qed

theorem validation_failure_is_retried_witness:
  "transform_apod_data ''2025-11-13T00:05:00''
      (JObj [(''date'', JStr ''2025-11-13''), (''media_type'', JStr ''audio'')])
     = Inl (AssertionError ''Invalid media type'')
   \<and> instance_state
        (\<lambda>task k. if task = transform_task
           then \<not> isl (transform_apod_data ''2025-11-13T00:05:00''
                  (JObj [(''date'', JStr ''2025-11-13''), (''media_type'', JStr ''audio'')]))
           else True)
        transform_task = (Failed, 3)
   \<and> dag_run_state
        (\<lambda>task k. if task = transform_task
           then \<not> isl (transform_apod_data ''2025-11-13T00:05:00''
                  (JObj [(''date'', JStr ''2025-11-13''), (''media_type'', JStr ''audio'')]))
           else True) = Run_failed"
proof -
  let ?raw = "JObj [(''date'', JStr ''2025-11-13''), (''media_type'', JStr ''audio'')]"
  let ?env = "\<lambda>(task :: task) (k :: nat). if task = transform_task
      then \<not> isl (transform_apod_data ''2025-11-13T00:05:00'' ?raw) else True"
  have bad: "transform_apod_data ''2025-11-13T00:05:00'' ?raw
      = Inl (AssertionError ''Invalid media type'')"
    by (simp add: transform_apod_data_def select_fields_def get_def get_default_def
        quality_checks_def isna_def isin_image_video_def)
  have ex: "fst (instance_state ?env extract_task) = Success"
    by (simp add: state_extract run_task_first_try)
  have link: "?env transform_task k
      = (\<not> isl (transform_apod_data ((\<lambda>k. ''2025-11-13T00:05:00'') k) ?raw))" for k :: nat
    by simp
  from validation_failure_is_retried [of ?env "\<lambda>k. ''2025-11-13T00:05:00''" ?raw
      "''Invalid media type''", OF ex link bad] bad
  show ?thesis by simp
qed

text \<open>
  C5 as stated fails: on a record that fails the media type check, the transform task is
  tried three times, not once.
\<close>

theorem validation_failure_three_tries:
  "transform_apod_data ''2025-11-13T00:05:00''
      (JObj [(''date'', JStr ''2025-11-13''), (''media_type'', JStr ''audio'')])
     = Inl (AssertionError ''Invalid media type'')
   \<and> task_retries transform_task = 2
   \<and> run_task
        (\<lambda>task k. \<not> isl (transform_apod_data ''2025-11-13T00:05:00''
           (JObj [(''date'', JStr ''2025-11-13''), (''media_type'', JStr ''audio'')])))
        transform_task = (Failed, 3)"
proof -
  have bad: "transform_apod_data ''2025-11-13T00:05:00''
      (JObj [(''date'', JStr ''2025-11-13''), (''media_type'', JStr ''audio'')])
      = Inl (AssertionError ''Invalid media type'')"
    by (simp add: transform_apod_data_def select_fields_def get_def get_default_def
        quality_checks_def isna_def isin_image_video_def)
  then show ?thesis
    by (simp add: task_retries_simp run_task_all_fail)
qed


section \<open>Helper facts: bash lists\<close>

lemma and_or_append: "and_or tool r (xs @ ys) = and_or tool (and_or tool r xs) ys"
proof (induction xs arbitrary: r)
  case Nil
  show ?case by simp
next
  case (Cons x xs)
  obtain c cmd where x: "x = (c, cmd)" by (cases x)
  obtain status s where r: "r = (status, s)" by (cases r)
  show ?case unfolding x r by (cases c) (simp_all add: Cons)
qed

lemma and_or_preserves:
  assumes "\<And>c cmd s. (c, cmd) \<in> set xs \<Longrightarrow> P s \<Longrightarrow> P (snd (exec tool cmd s))"
    and "P (snd r)"
  shows "P (snd (and_or tool r xs))"
  using assms
proof (induction xs arbitrary: r)
  case Nil
  then show ?case by simp
next
  case (Cons x xs)
  obtain c cmd where x: "x = (c, cmd)" by (cases x)
  obtain status s where r: "r = (status, s)" by (cases r)
  have step: "P (snd (exec tool cmd s))"
    using Cons.prems(1) [of c cmd s] Cons.prems(2) by (simp add: x r)
  have rest: "P (snd (and_or tool r' xs))" if "P (snd r')" for r'
  proof (rule Cons.IH)
    show "P (snd (exec tool cmd' s'))" if "(c', cmd') \<in> set xs" "P s'" for c' cmd' s'
      using Cons.prems(1) [of c' cmd' s'] that by simp
    show "P (snd r')" by (rule that)
  qed
  show ?case
    unfolding x r using step Cons.prems(2) rest by (cases c) (simp_all add: r)
qed

lemma and_or_ends_true_echo:
  "fst (and_or tool r (xs @ [(Or_if, [''true'']), (And_if, ''echo'' # args)])) = 0"
proof -
  obtain status s where "and_or tool r xs = (status, s)" by (cases "and_or tool r xs")
  then show ?thesis by (simp add: and_or_append exec_def)
qed

lemma git_bash_command_exit: "fst (bash tool (git_bash_command stamp) s) = 0"
proof -
  have "snd (git_bash_command stamp) =
      take 18 (snd (git_bash_command stamp))
        @ [(Or_if, [''true'']), (And_if, [''echo'', ''Git commit completed successfully''])]"
    by (simp add: git_bash_command_def)
  then show ?thesis
    unfolding bash_def using and_or_ends_true_echo by metis
qed

lemma git_task_log_unchanged:
  fixes tool :: "string list \<Rightarrow> 's \<Rightarrow> nat \<times> 's" and log :: "'s \<Rightarrow> 'l" and clean :: "'s \<Rightarrow> bool"
  assumes others: "\<And>cmd s. \<not> is_git_commit cmd \<Longrightarrow>
      log (snd (tool cmd s)) = log s \<and> (clean s \<longrightarrow> clean (snd (tool cmd s)))"
    and commit: "\<And>cmd s. is_git_commit cmd \<Longrightarrow> clean s \<Longrightarrow>
      fst (tool cmd s) \<noteq> 0 \<and> log (snd (tool cmd s)) = log s"
    and start: "clean s0"
  shows "log (snd (bash tool (git_bash_command stamp) s0)) = log s0"
proof -
  define msg where "msg = ''Update APOD data version - '' @ stamp"
  define before where "before =
      [(And_if, [''echo'', ''Configuring Git...'']),
       (And_if, [''git'', ''config'', ''--global'', ''user.name'', ''MLOps Pipeline'']),
       (And_if, [''git'', ''config'', ''--global'', ''user.email'', ''mlops@example.com'']),
       (And_if, [''git'', ''config'', ''--global'', ''--add'', ''safe.directory'', ''/opt/airflow'']),
       (And_if, [''echo'', ''Initializing Git repository if needed...'']),
       (And_if, [''git'', ''init'']),
       (Or_if, [''echo'', ''Git already initialized'']),
       (And_if, [''echo'', ''Current Git status:'']),
       (And_if, [''git'', ''status'']),
       (Or_if, [''true'']),
       (And_if, [''echo'', ''Staging DVC files...'']),
       (And_if, [''git'', ''add'', ''data/apod_data.csv.dvc'', ''data/.gitignore'',
                 ''.dvc/config'', ''.dvc/.gitignore'']),
       (Or_if, [''true'']),
       (And_if, [''echo'', ''Committing changes...''])]"
  define after where "after =
      [(Or_if, [''echo'', ''No changes to commit'']),
       (And_if, [''echo'', ''Latest Git log:'']),
       (And_if, [''git'', ''log'', ''--oneline'', ''-3'']),
       (Or_if, [''true'']),
       (And_if, [''echo'', ''Git commit completed successfully''])]"
  have split: "git_bash_command stamp =
      ([''cd'', ''/opt/airflow''], before @ [(And_if, [''git'', ''commit'', ''-m'', msg])] @ after)"
    by (simp add: before_def after_def msg_def git_bash_command_def)
  have before_cmds: "\<forall>x \<in> set before. \<not> is_git_commit (snd x)"
    unfolding before_def by (simp add: is_git_commit_def)
  have after_cmds: "\<forall>x \<in> set after. \<not> is_git_commit (snd x)"
    unfolding after_def by (simp add: is_git_commit_def)
  have is_commit: "is_git_commit [''git'', ''commit'', ''-m'', msg]"
    by (simp add: is_git_commit_def)
  have ex_log: "log (snd (exec tool cmd s)) = log s" if "\<not> is_git_commit cmd" for cmd s
    using others [OF that, of s] by (simp add: exec_def)
  have ex_clean: "clean (snd (exec tool cmd s))" if "\<not> is_git_commit cmd" "clean s" for cmd s
    using others [OF that(1), of s] that(2) by (simp add: exec_def)
  define r0 where "r0 = exec tool [''cd'', ''/opt/airflow''] s0"
  have cd: "\<not> is_git_commit [''cd'', ''/opt/airflow'']"
    by (simp add: is_git_commit_def)
  have r0: "log (snd r0) = log s0 \<and> clean (snd r0)"
    unfolding r0_def using ex_log [OF cd, of s0] ex_clean [OF cd start] by simp
  define r1 where "r1 = and_or tool r0 before"
  have r1: "log (snd r1) = log s0 \<and> clean (snd r1)"
    unfolding r1_def
  proof (rule and_or_preserves [where P = "\<lambda>s. log s = log s0 \<and> clean s"])
    fix c cmd s
    assume "(c, cmd) \<in> set before" and inv: "log s = log s0 \<and> clean s"
    with before_cmds have "\<not> is_git_commit cmd" by force
    with inv show "log (snd (exec tool cmd s)) = log s0 \<and> clean (snd (exec tool cmd s))"
      by (simp add: ex_log ex_clean)
  next
    show "log (snd r0) = log s0 \<and> clean (snd r0)" by (rule r0)
  qed
  define r2 where "r2 = and_or tool r1 [(And_if, [''git'', ''commit'', ''-m'', msg])]"
  obtain status s where r1_eq: "r1 = (status, s)" by (cases r1)
  have not_builtin: "exec tool [''git'', ''commit'', ''-m'', msg] s = tool [''git'', ''commit'', ''-m'', msg] s"
    by (simp add: exec_def)
  have r2: "log (snd r2) = log s0"
    using r1 commit [OF is_commit, of s]
    by (simp add: r2_def r1_eq not_builtin)
  have r3: "log (snd (and_or tool r2 after)) = log s0"
  proof (rule and_or_preserves [where P = "\<lambda>s. log s = log s0"])
    fix c cmd s
    assume "(c, cmd) \<in> set after" and inv: "log s = log s0"
    with after_cmds have "\<not> is_git_commit cmd" by force
    with inv show "log (snd (exec tool cmd s)) = log s0"
      by (simp add: ex_log)
  next
    show "log (snd r2) = log s0" by (rule r2)
  qed
  have "bash tool (git_bash_command stamp) s0 = and_or tool r2 after"
    by (simp only: bash_def split fst_conv snd_conv and_or_append r2_def r1_def r0_def)
  with r3 show ?thesis by simp
qed

section \<open>The commit step with nothing to commit\<close>

text \<open>
  C8. Take any behaviour of the external commands in which no command but
  \<^verbatim>\<open>git commit\<close> writes to the log or makes something new to commit, and in which
  \<^verbatim>\<open>git commit\<close> with nothing new exits with a non-zero status and writes nothing.
  Started in a state with nothing new, the commit task succeeds and leaves the log as it
  was: the failed commit is followed by \<^verbatim>\<open>|| echo "No changes to commit"\<close>.
\<close>

theorem git_task_nothing_to_commit:
  fixes tool :: "string list \<Rightarrow> 's \<Rightarrow> nat \<times> 's" and log :: "'s \<Rightarrow> 'l" and clean :: "'s \<Rightarrow> bool"
  assumes "\<And>cmd s. \<not> is_git_commit cmd \<Longrightarrow>
      log (snd (tool cmd s)) = log s \<and> (clean s \<longrightarrow> clean (snd (tool cmd s)))"
    and "\<And>cmd s. is_git_commit cmd \<Longrightarrow> clean s \<Longrightarrow>
      fst (tool cmd s) \<noteq> 0 \<and> log (snd (tool cmd s)) = log s"
    and "clean s0"
  shows "fst (bash_operator tool (git_bash_command stamp) s0) = Success
    \<and> log (snd (bash_operator tool (git_bash_command stamp) s0)) = log s0"
proof -
  obtain status s where run: "bash tool (git_bash_command stamp) s0 = (status, s)"
    by (cases "bash tool (git_bash_command stamp) s0")
  from git_bash_command_exit [of tool stamp s0] run have "status = 0" by simp
  moreover from git_task_log_unchanged [of log tool clean s0 stamp, OF assms] run
  have "log s = log s0" by simp
  ultimately show ?thesis by (simp add: bash_operator_def run)
qed

theorem git_task_nothing_to_commit_witness:
  "nothing_new \<lparr> worktree_changed = False, index_changed = False,
                 commits = [''Update APOD data version - 2025-11-12_00-05-00''] \<rparr>
   \<and> fst (bash_operator small_git (git_bash_command ''2025-11-13_00-05-00'')
        \<lparr> worktree_changed = False, index_changed = False,
          commits = [''Update APOD data version - 2025-11-12_00-05-00''] \<rparr>) = Success
   \<and> commits (snd (bash_operator small_git (git_bash_command ''2025-11-13_00-05-00'')
        \<lparr> worktree_changed = False, index_changed = False,
          commits = [''Update APOD data version - 2025-11-12_00-05-00''] \<rparr>))
      = [''Update APOD data version - 2025-11-12_00-05-00'']"
proof -
  have others: "commits (snd (small_git cmd s)) = commits s
      \<and> (nothing_new s \<longrightarrow> nothing_new (snd (small_git cmd s)))"
    if "\<not> is_git_commit cmd" for cmd s
    using that by (simp add: small_git_def is_git_commit_def nothing_new_def)
  have commit: "fst (small_git cmd s) \<noteq> 0 \<and> commits (snd (small_git cmd s)) = commits s"
    if "is_git_commit cmd" "nothing_new s" for cmd s
    using that by (simp add: small_git_def is_git_commit_def nothing_new_def)
  have start: "nothing_new \<lparr> worktree_changed = False, index_changed = False,
      commits = [''Update APOD data version - 2025-11-12_00-05-00''] \<rparr>"
    by (simp add: nothing_new_def)
  from git_task_nothing_to_commit [of commits small_git nothing_new _ "''2025-11-13_00-05-00''",
      OF others commit start] start
  show ?thesis by simp
qed


end
